theory Spec2Isabelle
  imports Main "HOL-Library.Word"
begin

unbundle bit_operations_syntax

section \<open>Diagnostics (repl.cpp, PrintErrorLine .. PrintError)\<close>

text \<open>
  The engine's text is UTF-16: \<open>linebuf\<close> is a sequence of \<open>char16_t\<close>.
  \<open>size_t\<close> is taken as a 64-bit unsigned word.
\<close>

type_synonym char16 = "16 word"
type_synonym size_t = "64 word"

text \<open>
  Ways in which the process stops instead of returning to its caller:
  \<open>die\<close> (prints and calls \<open>exit(1)\<close>), a failed \<open>assert\<close>, the
  \<open>std::range_error\<close> that \<open>wstring_convert::to_bytes\<close> throws and nothing catches,
  the \<open>std::length_error\<close> or \<open>std::bad_alloc\<close> that \<open>std::string(ndots, '.')\<close>
  throws and nothing catches, and a read past the end of \<open>linebuf\<close>.
\<close>

datatype abort = Died | AssertFailed | ConversionThrew | StringThrew | OutOfBounds

datatype PrintErrorKind = Error | Warning | StrictWarning | Note

record JSErrorBase =
  filename :: "string option"
  lineno :: nat
  column :: nat
  message :: string

record JSErrorReport = JSErrorBase +
  is_warning :: bool
  is_strict :: bool
  linebuf :: "char16 list option"
  tokenOffset :: nat
  report_notes :: "JSErrorBase list option"

text \<open>
  The loop of lines 99-106: one step per character \<open>linebuf[i]\<close>, \<open>i < n\<close>.
  A tab executes \<open>ndots += (ndots + 8) & ~7\<close>, any other character \<open>ndots++\<close>.
\<close>

primrec count_dots :: "char16 list \<Rightarrow> size_t \<Rightarrow> size_t" where
  "count_dots [] ndots = ndots"
| "count_dots (c # cs) ndots =
     count_dots cs (if c = 9 then ndots + ((ndots + 8) AND NOT 7) else ndots + 1)"

text \<open>
  \<open>linebuf\<close> holds \<open>linebufLength\<close> characters and a terminating NUL; index
  \<open>linebufLength\<close> is the last one the loop may read.
\<close>

definition caret_ndots :: "char16 list \<Rightarrow> nat \<Rightarrow> abort + size_t" where
  "caret_ndots buf n =
     (if n \<le> length buf + 1 then Inr (count_dots (take n (buf @ [0])) 0)
      else Inl OutOfBounds)"

text \<open>
  The rule as the specification words it: a tab rounds the count up to the next multiple
  of 8, any other character adds 1.
\<close>

primrec spec_dots :: "char16 list \<Rightarrow> nat \<Rightarrow> nat" where
  "spec_dots [] k = k"
| "spec_dots (c # cs) k = spec_dots cs (if c = 9 then (k div 8 + 1) * 8 else k + 1)"

text \<open>
  \<open>PrintErrorLine(prefix, report)\<close>: the text it sends to \<open>std::cerr\<close>, and
  how it stops if it does not return. Two pieces of the C++ library are parameters:
  \<open>to_bytes\<close>, the UTF-16 to UTF-8 converter, yields \<open>None\<close> where it throws;
  \<open>string_alloc n\<close> tells whether \<open>std::string(n, '.')\<close> can be built (\<open>n\<close> is
  at most \<open>max_size()\<close> and the memory is there).
\<close>

definition PrintErrorLine ::
  "(char16 list \<Rightarrow> string option) \<Rightarrow> (nat \<Rightarrow> bool) \<Rightarrow> string \<Rightarrow> JSErrorReport
     \<Rightarrow> string \<times> abort option" where
  "PrintErrorLine to_bytes string_alloc prefix report =
     (case linebuf report of
        None \<Rightarrow> ([], None)
      | Some buf \<Rightarrow>
          (let head = '':'' @ [CHR 0x0A] @ prefix in
           case to_bytes buf of
             None \<Rightarrow> (head, Some ConversionThrew)
           | Some linebuf_utf8 \<Rightarrow>
               (let body = head @ linebuf_utf8
                      @ (if buf = [] \<or> last buf \<noteq> 10 then [CHR 0x0A] else [])
                      @ prefix in
                case caret_ndots buf (tokenOffset report) of
                  Inl a \<Rightarrow> (body, Some a)
                | Inr ndots \<Rightarrow>
                    (if string_alloc (unat ndots)
                     then (body @ replicate (unat ndots) (CHR ''.'') @ ''^'', None)
                     else (body, Some StringThrew)))))"

text \<open>Decimal rendering of an unsigned number, as \<open>operator<<\<close> prints it.\<close>

fun show_nat :: "nat \<Rightarrow> string" where
  "show_nat n =
     (if n < 10 then [char_of (48 + n)]
      else show_nat (n div 10) @ [char_of (48 + n mod 10)])"

declare show_nat.simps [simp del]

definition kindPrefix :: "PrintErrorKind \<Rightarrow> string" where
  "kindPrefix kind =
     (case kind of
        Error \<Rightarrow> []
      | Warning \<Rightarrow> ''warning: ''
      | StrictWarning \<Rightarrow> ''strict warning: ''
      | Note \<Rightarrow> ''note: '')"

definition error_prefix :: "'a JSErrorBase_scheme \<Rightarrow> PrintErrorKind \<Rightarrow> string" where
  "error_prefix report kind =
     (case filename report of None \<Rightarrow> [] | Some f \<Rightarrow> f @ '':'')
     @ (if lineno report \<noteq> 0
        then show_nat (lineno report) @ '':'' @ show_nat (column report) @ '' ''
        else [])
     @ kindPrefix kind"

text \<open>
  The \<open>strchr\<close> loop of lines 143-152: the prefix goes before the message and again
  after each embedded newline.
\<close>

primrec after_newlines :: "string \<Rightarrow> string \<Rightarrow> string" where
  "after_newlines prefix [] = []"
| "after_newlines prefix (c # cs) =
     (if c = CHR 0x0A then c # prefix @ after_newlines prefix cs
      else c # after_newlines prefix cs)"

definition print_message :: "string \<Rightarrow> string \<Rightarrow> string" where
  "print_message prefix msg = prefix @ after_newlines prefix msg"

text \<open>\<open>PrintSingleError\<close>, once for a report and once for a note (whose line part is empty).\<close>

definition PrintSingleError_report ::
  "(char16 list \<Rightarrow> string option) \<Rightarrow> (nat \<Rightarrow> bool) \<Rightarrow> JSErrorReport \<Rightarrow> PrintErrorKind
     \<Rightarrow> string \<times> abort option" where
  "PrintSingleError_report to_bytes string_alloc report kind =
     (let prefix = error_prefix report kind;
          msg = print_message prefix (message report) in
      case PrintErrorLine to_bytes string_alloc prefix report of
        (line, Some a) \<Rightarrow> (msg @ line, Some a)
      | (line, None) \<Rightarrow> (msg @ line @ [CHR 0x0A], None))"

definition PrintSingleError_note :: "JSErrorBase \<Rightarrow> string" where
  "PrintSingleError_note note =
     (let prefix = error_prefix note Note in
      print_message prefix (message note) @ [CHR 0x0A])"

definition PrintError ::
  "(char16 list \<Rightarrow> string option) \<Rightarrow> (nat \<Rightarrow> bool) \<Rightarrow> JSErrorReport
     \<Rightarrow> string \<times> abort option" where
  "PrintError to_bytes string_alloc report =
     (let kind = (if is_warning report
                  then (if is_strict report then StrictWarning else Warning)
                  else Error) in
      case PrintSingleError_report to_bytes string_alloc report kind of
        (text, Some a) \<Rightarrow> (text, Some a)
      | (text, None) \<Rightarrow>
          (text @ (case report_notes report of
                     None \<Rightarrow> []
                   | Some ns \<Rightarrow> concat (map PrintSingleError_note ns)), None))"

section \<open>The engine and the terminal as collaborators\<close>

text \<open>
  A \<open>JS::Value\<close> as far as the program inspects it: \<open>isUndefined\<close>,
  \<open>isString\<close>, \<open>isObject\<close>, or anything else (numbers, booleans, null, symbols).
  \<open>'s\<close> are the engine's strings, \<open>'o\<close> its objects.
\<close>

datatype ('s, 'o) Value = JSUndefined | JSString 's | JSObject 'o | JSPrimitive nat

text \<open>
  What a fallible engine call reports. \<open>Ok a\<close>: it succeeded with \<open>a\<close>.
  \<open>Fail e\<close>: it returned false or null, and \<open>e\<close> is the exception it left pending,
  if it left one. \<open>Quit g\<close>: the script run by the call invoked the global's native
  \<open>quit\<close>, whose false return unwound the call; \<open>g\<close> tells whether
  \<open>JS::GetNonCCWObjectGlobal\<close> found the callee's global.
\<close>

datatype ('v, 'a) res = Ok 'a | Fail "'v option" | Quit bool

text \<open>
  The engine (and the C++ library's converter) are parameters of the program. \<open>'h\<close>
  is the state of the engine that the program does not see: its heap, its job queue.
  \<open>RunJobs\<close> is told whether \<open>js::StopDrainingJobQueue\<close> has been called, and
  reports whether a job invoked \<open>quit\<close>.
\<close>

record ('h, 's, 'o) engine =
  BufferIsCompilableUnit :: "'h \<Rightarrow> string \<Rightarrow> bool"
  SourceInit :: "'h \<Rightarrow> string \<Rightarrow> (('s, 'o) Value, unit) res \<times> 'h"
  Evaluate :: "'h \<Rightarrow> string \<Rightarrow> 32 word \<Rightarrow> (('s, 'o) Value, ('s, 'o) Value) res \<times> 'h"
  MaybeGC :: "'h \<Rightarrow> 'h"
  ToString :: "'h \<Rightarrow> ('s, 'o) Value \<Rightarrow> (('s, 'o) Value, 's) res \<times> 'h"
  ValueToSource :: "'h \<Rightarrow> ('s, 'o) Value \<Rightarrow> (('s, 'o) Value, 's) res \<times> 'h"
  GetClass :: "'h \<Rightarrow> 'o \<Rightarrow> string option"
  NewStringCopyZ :: "'h \<Rightarrow> string \<Rightarrow> (('s, 'o) Value, 's) res \<times> 'h"
  EncodeStringToUTF8 :: "'h \<Rightarrow> 's \<Rightarrow> (('s, 'o) Value, string) res \<times> 'h"
  ErrorFromException :: "'h \<Rightarrow> 'o \<Rightarrow> JSErrorReport option"
  RunJobs :: "bool \<Rightarrow> 'h \<Rightarrow> bool option \<times> 'h"
  to_bytes :: "char16 list \<Rightarrow> string option"
  string_alloc :: "nat \<Rightarrow> bool"

text \<open>Calls the program makes, in order (a log kept beside the state).\<close>

datatype call =
    CallReadline string
  | CallEvalAndPrint string "32 word"
  | CallReportAndClearException
  | CallRunJobs

text \<open>
  Everything the program reads and writes: the engine's hidden state, the context's
  pending exception, the flag \<open>js::StopDrainingJobQueue\<close> sets, the
  \<open>m_shouldQuit\<close> bit of \<open>ReplGlobal\<close>, readline's history, and the two streams.
\<close>

record ('h, 's, 'o) world =
  heap :: 'h
  pending :: "('s, 'o) Value option"
  stopDraining :: bool
  m_shouldQuit :: bool
  history :: "string list"
  cout :: string
  cerr :: string
  calls :: "call list"

definition log_call :: "call \<Rightarrow> ('h, 's, 'o) world \<Rightarrow> ('h, 's, 'o) world" where
  "log_call c w = w\<lparr>calls := calls w @ [c]\<rparr>"

text \<open>The buffers handed to \<open>EvalAndPrint\<close>, with their starting line, in order.\<close>

fun submitted :: "call list \<Rightarrow> (string \<times> 32 word) list" where
  "submitted [] = []"
| "submitted (CallEvalAndPrint b l # cs) = (b, l) # submitted cs"
| "submitted (c # cs) = submitted cs"

definition ClearPendingException :: "('h, 's, 'o) world \<Rightarrow> ('h, 's, 'o) world" where
  "ClearPendingException w = w\<lparr>pending := None\<rparr>"

definition StopDrainingJobQueue :: "('h, 's, 'o) world \<Rightarrow> ('h, 's, 'o) world" where
  "StopDrainingJobQueue w = w\<lparr>stopDraining := True\<rparr>"

section \<open>ReplGlobal::quit\<close>

definition quit :: "bool \<Rightarrow> ('h, 's, 'o) world \<Rightarrow> bool \<times> ('h, 's, 'o) world" where
  "quit global w =
     (if \<not> global then (False, w)
      else (False, StopDrainingJobQueue (w\<lparr>m_shouldQuit := True\<rparr>)))"

text \<open>
  The effect of a fallible engine call on the world: the new engine state, the exception
  it left pending, and the run of \<open>quit\<close> where the script invoked it. The result is
  \<open>None\<close> where the call returned false or null.
\<close>

definition settle ::
  "('h, 's, 'o) world \<Rightarrow> (('s, 'o) Value, 'a) res \<times> 'h \<Rightarrow> 'a option \<times> ('h, 's, 'o) world" where
  "settle w r =
     (case r of
        (Ok a, h) \<Rightarrow> (Some a, w\<lparr>heap := h\<rparr>)
      | (Fail None, h) \<Rightarrow> (None, w\<lparr>heap := h\<rparr>)
      | (Fail (Some e), h) \<Rightarrow> (None, w\<lparr>heap := h, pending := Some e\<rparr>)
      | (Quit g, h) \<Rightarrow> (None, snd (quit g (w\<lparr>heap := h\<rparr>))))"

section \<open>FormatString and FormatResult\<close>

definition FormatString ::
  "('h, 's, 'o) engine \<Rightarrow> ('h, 's, 'o) world \<Rightarrow> 's \<Rightarrow> string \<times> ('h, 's, 'o) world" where
  "FormatString eng w str =
     (case settle w (EncodeStringToUTF8 eng (heap w) str) of
        (None, w1) \<Rightarrow> (''[invalid string]'', ClearPendingException w1)
      | (Some chars, w1) \<Rightarrow> ([CHR 0x22] @ chars @ [CHR 0x22], w1))"

text \<open>Lines 220-231 of \<open>FormatResult\<close>: \<open>str\<close> in hand (or still null), encode it.\<close>

definition encode_str ::
  "('h, 's, 'o) engine \<Rightarrow> ('h, 's, 'o) world \<Rightarrow> 's option \<Rightarrow> string \<times> ('h, 's, 'o) world" where
  "encode_str eng w str =
     (case str of
        None \<Rightarrow> (''[invalid class]'', ClearPendingException w)
      | Some s \<Rightarrow>
          (case settle w (EncodeStringToUTF8 eng (heap w) s) of
             (None, w1) \<Rightarrow> (''[invalid string]'', ClearPendingException w1)
           | (Some bytes, w1) \<Rightarrow> (bytes, w1)))"

text \<open>Lines 202-205: \<open>JS::ToString\<close> gave null, try \<open>JS_ValueToSource\<close>.\<close>

definition source_fallback ::
  "('h, 's, 'o) engine \<Rightarrow> ('s, 'o) Value \<Rightarrow> 's option \<times> ('h, 's, 'o) world
     \<Rightarrow> 's option \<times> ('h, 's, 'o) world" where
  "source_fallback eng v r =
     (case r of
        (None, w) \<Rightarrow>
          (let w' = ClearPendingException w in settle w' (ValueToSource eng (heap w') v))
      | (Some s, w) \<Rightarrow> (Some s, w))"

text \<open>Lines 207-231 when \<open>str\<close> is still null: name the value by its class.\<close>

definition class_fallback ::
  "('h, 's, 'o) engine \<Rightarrow> ('s, 'o) Value \<Rightarrow> ('h, 's, 'o) world \<Rightarrow> string \<times> ('h, 's, 'o) world" where
  "class_fallback eng v w =
     (let w' = ClearPendingException w in
      case v of
        JSObject obj \<Rightarrow>
          (case GetClass eng (heap w') obj of
             Some name \<Rightarrow>
               (case settle w' (NewStringCopyZ eng (heap w') name) of
                  (str, w'') \<Rightarrow> encode_str eng w'' str)
           | None \<Rightarrow> (''[unknown object]'', w'))
      | _ \<Rightarrow> (''[unknown non-object]'', w'))"

text \<open>Lines 200-231: the value is not a string.\<close>

definition format_other ::
  "('h, 's, 'o) engine \<Rightarrow> ('h, 's, 'o) world \<Rightarrow> ('s, 'o) Value \<Rightarrow> string \<times> ('h, 's, 'o) world" where
  "format_other eng w v =
     (case source_fallback eng v (settle w (ToString eng (heap w) v)) of
        (None, w') \<Rightarrow> class_fallback eng v w'
      | (Some s, w') \<Rightarrow> encode_str eng w' (Some s))"

definition FormatResult ::
  "('h, 's, 'o) engine \<Rightarrow> ('h, 's, 'o) world \<Rightarrow> ('s, 'o) Value
     \<Rightarrow> string \<times> ('h, 's, 'o) world" where
  "FormatResult eng w v =
     (case v of
        JSString s \<Rightarrow> FormatString eng w s
      | _ \<Rightarrow> format_other eng w v)"

text \<open>A call has faulted when it did not succeed.\<close>

fun faulted :: "('v, 'a) res \<Rightarrow> bool" where
  "faulted (Ok a) = False"
| "faulted (Fail e) = True"
| "faulted (Quit g) = True"

text \<open>
  The formatter takes these fallible steps on a value, each in the engine state the step
  before left: for a string the encoding; otherwise \<open>JS::ToString\<close>, then
  \<open>JS_ValueToSource\<close>, then for an object with a class \<open>JS_NewStringCopyZ\<close> of the
  class name. The value faults at every step when each of them faults.
\<close>

definition faults_at_every_step :: "('h, 's, 'o) engine \<Rightarrow> 'h \<Rightarrow> ('s, 'o) Value \<Rightarrow> bool" where
  "faults_at_every_step eng h v =
     (case v of
        JSString s \<Rightarrow> faulted (fst (EncodeStringToUTF8 eng h s))
      | _ \<Rightarrow>
          faulted (fst (ToString eng h v)) \<and>
          (let h1 = snd (ToString eng h v) in
           faulted (fst (ValueToSource eng h1 v)) \<and>
           (let h2 = snd (ValueToSource eng h1 v) in
            case v of
              JSObject obj \<Rightarrow>
                (case GetClass eng h2 obj of
                   None \<Rightarrow> True
                 | Some name \<Rightarrow> faulted (fst (NewStringCopyZ eng h2 name)))
            | _ \<Rightarrow> True)))"

text \<open>The four literal placeholders.\<close>

definition placeholders :: "string set" where
  "placeholders =
     {''[invalid string]'', ''[unknown object]'', ''[unknown non-object]'', ''[invalid class]''}"

section \<open>ReportAndClearException\<close>

definition die :: "string \<Rightarrow> ('h, 's, 'o) world \<Rightarrow> ('h, 's, 'o) world \<times> abort option" where
  "die why w = (w\<lparr>cerr := cerr w @ ''fatal error:'' @ why @ [CHR 0x0A]\<rparr>, Some Died)"

definition ErrorFromExceptionValue ::
  "('h, 's, 'o) engine \<Rightarrow> ('h, 's, 'o) world \<Rightarrow> ('s, 'o) Value \<Rightarrow> JSErrorReport option" where
  "ErrorFromExceptionValue eng w exception =
     (case exception of
        JSObject exceptionObject \<Rightarrow> ErrorFromException eng (heap w) exceptionObject
      | _ \<Rightarrow> None)"

text \<open>
  \<open>JS_GetPendingException\<close> returns false when no exception is pending. The second
  component of the result is \<open>Some a\<close> when the process stopped with \<open>a\<close>.
\<close>

definition ReportAndClearException ::
  "('h, 's, 'o) engine \<Rightarrow> ('h, 's, 'o) world \<Rightarrow> ('h, 's, 'o) world \<times> abort option" where
  "ReportAndClearException eng w0 =
     (let w = log_call CallReportAndClearException w0 in
      case pending w of
        None \<Rightarrow> die ''Uncatchable exception thrown, out of memory or something'' w
      | Some exception \<Rightarrow>
          (let w1 = ClearPendingException w in
           case ErrorFromExceptionValue eng w1 exception of
             None \<Rightarrow>
               (let w2 = ClearPendingException w1;
                    (text, w3) = FormatResult eng w2 exception
                in (w3\<lparr>cerr := cerr w3 @ ''error: '' @ text @ [CHR 0x0A]\<rparr>, None))
           | Some report \<Rightarrow>
               (if is_warning report then (w1, Some AssertFailed)
                else (case PrintError (to_bytes eng) (string_alloc eng) report of
                        (text, a) \<Rightarrow> (w1\<lparr>cerr := cerr w1 @ text\<rparr>, a)))))"

section \<open>EvalAndPrint\<close>

definition EvalAndPrint ::
  "('h, 's, 'o) engine \<Rightarrow> ('h, 's, 'o) world \<Rightarrow> string \<Rightarrow> 32 word
     \<Rightarrow> bool \<times> ('h, 's, 'o) world" where
  "EvalAndPrint eng w0 buffer line_no =
     (let w = log_call (CallEvalAndPrint buffer line_no) w0 in
      case settle w (SourceInit eng (heap w) buffer) of
        (None, w1) \<Rightarrow> (False, w1)
      | (Some u, w1) \<Rightarrow>
          (case settle w1 (Evaluate eng (heap w1) buffer line_no) of
             (None, w2) \<Rightarrow> (False, w2)
           | (Some result, w2) \<Rightarrow>
               (let w3 = w2\<lparr>heap := MaybeGC eng (heap w2)\<rparr> in
                case result of
                  JSUndefined \<Rightarrow> (True, w3)
                | _ \<Rightarrow>
                    (let (display_str, w4) = FormatResult eng w3 result
                     in (True, if display_str \<noteq> []
                               then w4\<lparr>cout := cout w4 @ display_str @ [CHR 0x0A]\<rparr>
                               else w4)))))"

section \<open>ReplGlobal::loop\<close>

definition prompt :: "32 word \<Rightarrow> 32 word \<Rightarrow> string" where
  "prompt startline line_no = (if startline = line_no then ''js> '' else ''... '')"

text \<open>
  The inner \<open>do ... while\<close> (lines 309-320). The terminal delivers the lines of the
  list and then end of input; \<open>readline\<close> strips the newline of each line. The result
  is the buffer, \<open>eof\<close>, \<open>lineno\<close>, the lines not yet read and the world.
\<close>

fun accumulate ::
  "('h, 's, 'o) engine \<Rightarrow> ('h, 's, 'o) world \<Rightarrow> 32 word \<Rightarrow> string list \<Rightarrow> string \<Rightarrow> 32 word
     \<Rightarrow> string \<times> bool \<times> 32 word \<times> string list \<times> ('h, 's, 'o) world" where
  "accumulate eng w startline [] buffer line_no =
     (buffer, True, line_no, [], log_call (CallReadline (prompt startline line_no)) w)"
| "accumulate eng w startline (line # rest) buffer line_no =
     (let w1 = log_call (CallReadline (prompt startline line_no)) w;
          w2 = (if line \<noteq> [] then w1\<lparr>history := history w1 @ [line]\<rparr> else w1);
          buffer' = buffer @ line;
          line_no' = line_no + 1
      in if \<not> BufferIsCompilableUnit eng (heap w2) buffer'
         then accumulate eng w2 startline rest buffer' line_no'
         else (buffer', False, line_no', rest, w2))"

definition RunJobs_call :: "('h, 's, 'o) engine \<Rightarrow> ('h, 's, 'o) world \<Rightarrow> ('h, 's, 'o) world" where
  "RunJobs_call eng w0 =
     (let w = log_call CallRunJobs w0 in
      case RunJobs eng (stopDraining w) (heap w) of
        (None, h) \<Rightarrow> w\<lparr>heap := h\<rparr>
      | (Some g, h) \<Rightarrow> snd (quit g (w\<lparr>heap := h\<rparr>)))"

text \<open>Lines 322-324: what the loop does with the result of \<open>EvalAndPrint\<close>.\<close>

definition on_result ::
  "('h, 's, 'o) engine \<Rightarrow> bool \<Rightarrow> ('h, 's, 'o) world \<Rightarrow> ('h, 's, 'o) world \<times> abort option" where
  "on_result eng ok w =
     (if \<not> ok then (if \<not> m_shouldQuit w then ReportAndClearException eng w else (w, None))
      else (w, None))"

text \<open>One turn of the outer \<open>do ... while\<close> (lines 306-326).\<close>

definition loop_body ::
  "('h, 's, 'o) engine \<Rightarrow> ('h, 's, 'o) world \<Rightarrow> 32 word \<Rightarrow> string list
     \<Rightarrow> ('h, 's, 'o) world \<times> abort option \<times> bool \<times> 32 word \<times> string list" where
  "loop_body eng w line_no lines =
     (let startline = line_no;
          (buffer, eof, line_no', rest, w1) = accumulate eng w startline lines [] line_no;
          (ok, w2) = EvalAndPrint eng w1 buffer startline;
          (w3, a) = on_result eng ok w2
      in case a of
           Some x \<Rightarrow> (w3, Some x, eof, line_no', rest)
         | None \<Rightarrow> (RunJobs_call eng w3, None, eof, line_no', rest))"

function loop ::
  "('h, 's, 'o) engine \<Rightarrow> ('h, 's, 'o) world \<Rightarrow> 32 word \<Rightarrow> string list
     \<Rightarrow> ('h, 's, 'o) world \<times> abort option" where
  "loop eng w line_no lines =
     (case loop_body eng w line_no lines of
        (w', Some x, eof, line_no', rest) \<Rightarrow> (w', Some x)
      | (w', None, eof, line_no', rest) \<Rightarrow>
          (if \<not> eof \<and> \<not> m_shouldQuit w' then loop eng w' line_no' rest else (w', None)))"
  by pat_completeness auto
termination
proof -
  have acc: "length rest < length lines"
    if "accumulate eng w startline lines buffer line_no = (b, False, l, rest, w')"
    for eng :: "('h, 's, 'o) engine" and w w' startline lines buffer line_no b l rest
    using that
  proof (induction lines arbitrary: w buffer line_no)
    case Nil
    then show ?case by simp
  next
    case (Cons line lines)
    then show ?case
      by (fastforce simp: Let_def split: if_splits)
  qed
  have body: "length rest < length lines"
    if "(w', a, False, l, rest) = loop_body eng w line_no lines"
    for eng :: "('h, 's, 'o) engine" and w w' line_no lines a l rest
    using that [symmetric]
    by (auto simp: loop_body_def Let_def split: prod.splits option.splits dest: acc)
  show ?thesis
    by (relation "measure (\<lambda>(eng, w, line_no, lines). length lines)")
       (auto dest: body)
qed

declare loop.simps [simp del]

text \<open>
  The engine's side of \<open>js::StopDrainingJobQueue\<close>: once told to stop, a drain runs
  no job and leaves the engine as it is.
\<close>

definition drain_honours_stop :: "('h, 's, 'o) engine \<Rightarrow> bool" where
  "drain_honours_stop eng \<longleftrightarrow> (\<forall>h. RunJobs eng True h = (None, h))"

text \<open>
  \<open>js::StopDrainingJobQueue\<close> is called exactly where \<open>m_shouldQuit\<close> is set
  (lines 50-51), and both start out false: the two flags agree.
\<close>

definition stop_follows_quit :: "('h, 's, 'o) world \<Rightarrow> bool" where
  "stop_follows_quit w \<longleftrightarrow> stopDraining w = m_shouldQuit w"

section \<open>A small engine to run the program on\<close>

text \<open>
  An engine with strings as their UTF-8 text, objects as numbers and the queued jobs as
  its hidden state. A buffer is a compilable unit when its braces balance;
  \<open>quit()\<close> invokes the native, \<open>later()\<close> queues a job,
  \<open>later(); quit()\<close> does both, \<open>throw 1\<close> throws,
  \<open>"hello"\<close> is the string, \<open>bad\<close> throws an error whose source line has a lone
  surrogate. Draining runs the queued jobs unless it has been told to stop.
\<close>

definition toy_report :: JSErrorReport where
  "toy_report =
     \<lparr>filename = Some ''typein'', lineno = 3, column = 1,
      message = ''ReferenceError: x is not defined'',
      is_warning = False, is_strict = False,
      linebuf = Some [0xDC00], tokenOffset = 0, report_notes = None\<rparr>"

definition toy_Evaluate ::
  "string list \<Rightarrow> string \<Rightarrow> 32 word
     \<Rightarrow> ((string, nat) Value, (string, nat) Value) res \<times> string list" where
  "toy_Evaluate h b l =
     (if b = ''quit()'' then (Quit True, h)
      else if b = ''later(); quit()'' then (Quit True, h @ [''job''])
      else if b = [CHR 0x22] @ ''hello'' @ [CHR 0x22] then (Ok (JSString ''hello''), h)
      else if b = ''throw 1'' then (Fail (Some (JSPrimitive 1)), h)
      else if b = ''bad'' then (Fail (Some (JSObject 7)), h)
      else if b = ''later()'' then (Ok JSUndefined, h @ [''job''])
      else (Ok JSUndefined, h))"

definition toy_ToString ::
  "string list \<Rightarrow> (string, nat) Value \<Rightarrow> ((string, nat) Value, string) res \<times> string list" where
  "toy_ToString h v =
     (case v of
        JSUndefined \<Rightarrow> (Ok ''undefined'', h)
      | JSString s \<Rightarrow> (Ok s, h)
      | JSObject obj \<Rightarrow> (Fail (Some (JSPrimitive 0)), h)
      | JSPrimitive n \<Rightarrow> (Ok (show_nat n), h))"

definition toy_engine :: "(string list, string, nat) engine" where
  "toy_engine =
     \<lparr>BufferIsCompilableUnit = (\<lambda>h b. count_list b (CHR ''{'') = count_list b (CHR ''}'')),
      SourceInit = (\<lambda>h b. (Ok (), h)),
      Evaluate = toy_Evaluate,
      MaybeGC = (\<lambda>h. h),
      ToString = toy_ToString,
      ValueToSource = toy_ToString,
      GetClass = (\<lambda>h obj. if obj = 0 then None else Some ''Object''),
      NewStringCopyZ = (\<lambda>h s. (Ok s, h)),
      EncodeStringToUTF8 = (\<lambda>h s. (Ok s, h)),
      ErrorFromException = (\<lambda>h obj. if obj = 7 then Some toy_report else None),
      RunJobs = (\<lambda>stop h. if stop then (None, h) else (None, [])),
      to_bytes = (\<lambda>buf. if 0xDC00 \<in> set buf then None
                          else Some (map (\<lambda>c. char_of (unat c)) buf)),
      string_alloc = (\<lambda>n. n < 64)\<rparr>"

text \<open>The same engine with every conversion failing.\<close>

definition faulting_engine :: "(string list, string, nat) engine" where
  "faulting_engine =
     toy_engine
       \<lparr>ToString := (\<lambda>h v. (Fail (Some (JSPrimitive 0)), h)),
        ValueToSource := (\<lambda>h v. (Fail (Some (JSPrimitive 0)), h)),
        NewStringCopyZ := (\<lambda>h s. (Fail None, h)),
        EncodeStringToUTF8 := (\<lambda>h s. (Fail (Some (JSPrimitive 0)), h))\<rparr>"

definition world0 :: "(string list, string, nat) world" where
  "world0 =
     \<lparr>heap = [], pending = None, stopDraining = False, m_shouldQuit = False,
      history = [], cout = [], cerr = [], calls = []\<rparr>"

section \<open>What the engine calls and the formatter leave behind\<close>

lemma settle_Some:
  "settle w r = (Some a, w') \<Longrightarrow> w' = w\<lparr>heap := snd r\<rparr>"
  by (auto simp: settle_def quit_def split: prod.splits res.splits option.splits if_splits)

lemma settle_faulted:
  "faulted (fst r) \<Longrightarrow> fst (settle w r) = None"
  by (cases r; cases "fst r") (auto simp: settle_def split: option.splits)

lemma settle_frame:
  "calls (snd (settle w r)) = calls w"
  "cout (snd (settle w r)) = cout w"
  "cerr (snd (settle w r)) = cerr w"
  "history (snd (settle w r)) = history w"
  by (auto simp: settle_def quit_def StopDrainingJobQueue_def split: prod.splits res.splits option.splits)

lemma FormatString_pending:
  "pending w = None \<Longrightarrow> pending (snd (FormatString eng w s)) = None"
  by (auto simp: FormatString_def ClearPendingException_def split: prod.splits option.splits dest: settle_Some)

lemma encode_str_pending:
  "pending w = None \<or> str = None \<Longrightarrow> pending (snd (encode_str eng w str)) = None"
  by (auto simp: encode_str_def ClearPendingException_def split: prod.splits option.splits dest: settle_Some)

lemma settle_result_pending:
  "pending w = None \<Longrightarrow> settle w r = (str, w') \<Longrightarrow> pending w' = None \<or> str = None"
  by (cases str) (auto dest: settle_Some)

lemma encode_settled_pending:
  assumes "pending w = None"
  shows "pending (snd (encode_str eng (snd (settle w r)) (fst (settle w r)))) = None"
proof -
  obtain str w' where s: "settle w r = (str, w')"
    by (cases "settle w r")
  from settle_result_pending [OF assms s] show ?thesis
    by (simp add: s encode_str_pending)
qed

lemma class_fallback_pending:
  "pending (snd (class_fallback eng v w)) = None"
proof -
  have clr: "pending (ClearPendingException w) = None"
    by (simp add: ClearPendingException_def)
  show ?thesis
    using encode_settled_pending [OF clr, of eng]
    by (simp add: class_fallback_def Let_def clr case_prod_beta split: Value.splits option.splits)
qed

lemma source_fallback_pending:
  assumes "pending w = None \<or> str = None" and "source_fallback eng v (str, w) = (str', w')"
  shows "pending w' = None \<or> str' = None"
proof (cases str)
  case None
  have clr: "pending (ClearPendingException w) = None"
    by (simp add: ClearPendingException_def)
  from None assms(2) show ?thesis
    using settle_result_pending [OF clr] by (simp add: source_fallback_def Let_def)
next
  case (Some s)
  with assms show ?thesis by (simp add: source_fallback_def)
qed

lemma format_other_pending:
  assumes "pending w = None"
  shows "pending (snd (format_other eng w v)) = None"
proof -
  obtain str1 w1 where s1: "settle w (ToString eng (heap w) v) = (str1, w1)"
    by (cases "settle w (ToString eng (heap w) v)")
  obtain str2 w2 where s2: "source_fallback eng v (str1, w1) = (str2, w2)"
    by (cases "source_fallback eng v (str1, w1)")
  from settle_result_pending [OF assms s1] have "pending w1 = None \<or> str1 = None" .
  from source_fallback_pending [OF this s2] have p2: "pending w2 = None \<or> str2 = None" .
  show ?thesis
  proof (cases str2)
    case None
    then show ?thesis by (simp add: format_other_def s1 s2 class_fallback_pending)
  next
    case (Some s)
    with p2 show ?thesis by (simp add: format_other_def s1 s2 encode_str_pending)
  qed
qed

lemma FormatResult_pending:
  "pending w = None \<Longrightarrow> pending (snd (FormatResult eng w v)) = None"
  by (cases v) (simp_all add: FormatResult_def FormatString_pending format_other_pending)

lemma settle_heap:
  "heap (snd (settle w r)) = snd r"
  by (cases r; cases "fst r")
    (auto simp: settle_def quit_def StopDrainingJobQueue_def split: option.splits)

lemma format_other_on_faults:
  assumes "faults_at_every_step eng (heap w) v" and "\<And>s. v \<noteq> JSString s"
  shows "format_other eng w v =
     class_fallback eng v
       (snd (settle (ClearPendingException (snd (settle w (ToString eng (heap w) v))))
               (ValueToSource eng (snd (ToString eng (heap w) v)) v)))"
proof -
  let ?r1 = "ToString eng (heap w) v"
  let ?c1 = "ClearPendingException (snd (settle w ?r1))"
  have h1: "heap ?c1 = snd ?r1"
    by (simp add: ClearPendingException_def settle_heap)
  from assms have f1: "faulted (fst ?r1)"
    by (cases v) (auto simp: faults_at_every_step_def)
  from assms have f2: "faulted (fst (ValueToSource eng (snd ?r1) v))"
    by (cases v) (auto simp: faults_at_every_step_def Let_def)
  have s1: "fst (settle w ?r1) = None"
    by (rule settle_faulted [OF f1])
  have s2: "fst (settle ?c1 (ValueToSource eng (snd ?r1) v)) = None"
    by (rule settle_faulted [OF f2])
  show ?thesis
    by (simp add: format_other_def source_fallback_def case_prod_beta s1 Let_def h1 s2)
qed

lemma format_other_faults:
  assumes "faults_at_every_step eng (heap w) v" and "\<And>s. v \<noteq> JSString s"
  shows "fst (format_other eng w v) \<in> placeholders"
proof -
  let ?r1 = "ToString eng (heap w) v"
  let ?c1 = "ClearPendingException (snd (settle w ?r1))"
  let ?w2 = "snd (settle ?c1 (ValueToSource eng (snd ?r1) v))"
  let ?c2 = "ClearPendingException ?w2"
  have h2: "heap ?c2 = snd (ValueToSource eng (snd ?r1) v)"
    by (simp add: ClearPendingException_def settle_heap)
  have fo: "format_other eng w v = class_fallback eng v ?w2"
    by (rule format_other_on_faults [OF assms])
  show ?thesis
  proof (cases v)
    case (JSObject obj)
    show ?thesis
    proof (cases "GetClass eng (heap ?c2) obj")
      case None
      show ?thesis
        unfolding fo using JSObject None
        by (simp add: class_fallback_def Let_def placeholders_def)
    next
      case (Some name)
      let ?r3 = "NewStringCopyZ eng (heap ?c2) name"
      from assms(1) JSObject Some h2 have "faulted (fst ?r3)"
        by (simp add: faults_at_every_step_def Let_def)
      from settle_faulted [OF this, of ?c2] have "fst (settle ?c2 ?r3) = None" .
      then show ?thesis
        unfolding fo using JSObject Some
        by (simp add: class_fallback_def Let_def case_prod_beta encode_str_def placeholders_def)
    qed
  next
    case (JSString s)
    with assms(2) show ?thesis by blast
  next
    case JSUndefined
    show ?thesis
      unfolding fo using JSUndefined by (simp add: class_fallback_def Let_def placeholders_def)
  next
    case (JSPrimitive n)
    show ?thesis
      unfolding fo using JSPrimitive by (simp add: class_fallback_def Let_def placeholders_def)
  qed
qed

lemma FormatResult_faults:
  assumes "faults_at_every_step eng (heap w) v"
  shows "fst (FormatResult eng w v) \<in> placeholders"
proof (cases v)
  case (JSString s)
  with assms have "faulted (fst (EncodeStringToUTF8 eng (heap w) s))"
    by (simp add: faults_at_every_step_def)
  from settle_faulted [OF this, of w] JSString show ?thesis
    by (simp add: FormatResult_def FormatString_def case_prod_beta placeholders_def)
next
  case (JSObject obj)
  with format_other_faults [OF assms] show ?thesis by (simp add: FormatResult_def)
next
  case JSUndefined
  with format_other_faults [OF assms] show ?thesis by (simp add: FormatResult_def)
next
  case (JSPrimitive n)
  with format_other_faults [OF assms] show ?thesis by (simp add: FormatResult_def)
qed

lemma FormatString_clears_on_fault:
  assumes "faulted (fst (EncodeStringToUTF8 eng (heap w) s))"
  shows "pending (snd (FormatString eng w s)) = None"
  using settle_faulted [OF assms, of w]
  by (simp add: FormatString_def case_prod_beta ClearPendingException_def)

lemma format_other_clears_on_fault:
  assumes "faults_at_every_step eng (heap w) v" and "\<And>s. v \<noteq> JSString s"
  shows "pending (snd (format_other eng w v)) = None"
  by (simp add: format_other_on_faults [OF assms] class_fallback_pending)

lemma submitted_append: "submitted (xs @ ys) = submitted xs @ submitted ys"
  by (induction xs rule: submitted.induct) simp_all

lemma log_call_frame:
  "heap (log_call c w) = heap w"
  "pending (log_call c w) = pending w"
  "m_shouldQuit (log_call c w) = m_shouldQuit w"
  "stopDraining (log_call c w) = stopDraining w"
  "cout (log_call c w) = cout w"
  "cerr (log_call c w) = cerr w"
  "calls (log_call c w) = calls w @ [c]"
  by (simp_all add: log_call_def)

lemma encode_str_frame:
  "calls (snd (encode_str eng w str)) = calls w"
  "cerr (snd (encode_str eng w str)) = cerr w"
  "cout (snd (encode_str eng w str)) = cout w"
  by (simp_all add: encode_str_def ClearPendingException_def case_prod_beta settle_frame
      split: option.splits)

lemma FormatString_frame:
  "calls (snd (FormatString eng w s)) = calls w"
  "cerr (snd (FormatString eng w s)) = cerr w"
  "cout (snd (FormatString eng w s)) = cout w"
  by (simp_all add: FormatString_def ClearPendingException_def case_prod_beta settle_frame
      split: option.splits)

lemma class_fallback_frame:
  "calls (snd (class_fallback eng v w)) = calls w"
  "cerr (snd (class_fallback eng v w)) = cerr w"
  "cout (snd (class_fallback eng v w)) = cout w"
  by (simp_all add: class_fallback_def Let_def case_prod_beta encode_str_frame settle_frame
      ClearPendingException_def split: Value.splits option.splits)

lemma source_fallback_frame:
  "calls (snd (source_fallback eng v r)) = calls (snd r)"
  "cerr (snd (source_fallback eng v r)) = cerr (snd r)"
  "cout (snd (source_fallback eng v r)) = cout (snd r)"
  by (cases r; cases "fst r";
      simp add: source_fallback_def Let_def settle_frame ClearPendingException_def)+

lemma format_other_frame:
  "calls (snd (format_other eng w v)) = calls w"
  "cerr (snd (format_other eng w v)) = cerr w"
  "cout (snd (format_other eng w v)) = cout w"
proof -
  obtain str2 w2 where s2:
    "source_fallback eng v (settle w (ToString eng (heap w) v)) = (str2, w2)"
    by (cases "source_fallback eng v (settle w (ToString eng (heap w) v))")
  have "calls w2 = calls w" "cerr w2 = cerr w" "cout w2 = cout w"
    using source_fallback_frame [of eng v "settle w (ToString eng (heap w) v)"]
    by (simp_all add: s2 settle_frame)
  then show "calls (snd (format_other eng w v)) = calls w"
    "cerr (snd (format_other eng w v)) = cerr w"
    "cout (snd (format_other eng w v)) = cout w"
    by (cases str2; simp add: format_other_def s2 class_fallback_frame encode_str_frame)+
qed

lemma FormatResult_frame:
  "calls (snd (FormatResult eng w v)) = calls w"
  "cerr (snd (FormatResult eng w v)) = cerr w"
  "cout (snd (FormatResult eng w v)) = cout w"
  by (cases v; simp add: FormatResult_def FormatString_frame format_other_frame)+

lemma EvalAndPrint_calls:
  "calls (snd (EvalAndPrint eng w b l)) = calls w @ [CallEvalAndPrint b l]"
proof -
  let ?w = "log_call (CallEvalAndPrint b l) w"
  obtain r1 w1 where s1: "settle ?w (SourceInit eng (heap w) b) = (r1, w1)"
    by (cases "settle ?w (SourceInit eng (heap w) b)")
  have c1: "calls w1 = calls w @ [CallEvalAndPrint b l]"
    using settle_frame(1) [of ?w "SourceInit eng (heap w) b"] by (simp add: s1 log_call_frame)
  obtain r2 w2 where s2: "settle w1 (Evaluate eng (heap w1) b l) = (r2, w2)"
    by (cases "settle w1 (Evaluate eng (heap w1) b l)")
  have c2: "calls w2 = calls w1"
    using settle_frame(1) [of w1 "Evaluate eng (heap w1) b l"] by (simp add: s2)
  show ?thesis
    using c1 c2
    by (simp add: EvalAndPrint_def Let_def log_call_frame s1 s2 case_prod_beta FormatResult_frame
        split: option.splits Value.splits)
qed

lemma ReportAndClearException_calls:
  "calls (fst (ReportAndClearException eng w)) = calls w @ [CallReportAndClearException]"
  by (simp add: ReportAndClearException_def Let_def die_def log_call_def ClearPendingException_def
      case_prod_beta FormatResult_frame split: option.splits)

lemma RunJobs_call_frame:
  "calls (RunJobs_call eng w) = calls w @ [CallRunJobs]"
  "cerr (RunJobs_call eng w) = cerr w"
  "cout (RunJobs_call eng w) = cout w"
  "m_shouldQuit w \<Longrightarrow> m_shouldQuit (RunJobs_call eng w)"
  by (simp_all add: RunJobs_call_def Let_def log_call_def quit_def StopDrainingJobQueue_def
      case_prod_beta split: option.splits)

lemma accumulate_frame:
  "accumulate eng w s lines buffer l = (b, eof, l', rest, w1) \<Longrightarrow>
     heap w1 = heap w \<and> pending w1 = pending w \<and> m_shouldQuit w1 = m_shouldQuit w \<and>
     stopDraining w1 = stopDraining w \<and> cout w1 = cout w \<and> cerr w1 = cerr w \<and>
     submitted (calls w1) = submitted (calls w)"
proof (induction lines arbitrary: w buffer l)
  case Nil
  then show ?case by (auto simp: log_call_def submitted_append)
next
  case (Cons line lines)
  let ?w1 = "log_call (CallReadline (prompt s l)) w"
  let ?w2 = "if line \<noteq> [] then ?w1\<lparr>history := history ?w1 @ [line]\<rparr> else ?w1"
  have fr: "heap ?w2 = heap w" "pending ?w2 = pending w" "m_shouldQuit ?w2 = m_shouldQuit w"
    "stopDraining ?w2 = stopDraining w" "cout ?w2 = cout w" "cerr ?w2 = cerr w"
    "submitted (calls ?w2) = submitted (calls w)"
    by (simp_all add: log_call_def submitted_append)
  show ?case
  proof (cases "BufferIsCompilableUnit eng (heap ?w2) (buffer @ line)")
    case True
    with Cons.prems have "w1 = ?w2" by (simp add: Let_def)
    with fr show ?thesis by simp
  next
    case False
    with Cons.prems have "accumulate eng ?w2 s lines (buffer @ line) (l + 1) = (b, eof, l', rest, w1)"
      by (simp add: Let_def)
    from Cons.IH [OF this] fr show ?thesis by simp
  qed
qed

lemma accumulate_complete_or_eof:
  "accumulate eng w s lines buffer l = (b, eof, l', rest, w1) \<Longrightarrow>
     eof \<or> BufferIsCompilableUnit eng (heap w) b"
proof (induction lines arbitrary: w buffer l)
  case Nil
  then show ?case by simp
next
  case (Cons line lines)
  let ?w1 = "log_call (CallReadline (prompt s l)) w"
  let ?w2 = "if line \<noteq> [] then ?w1\<lparr>history := history ?w1 @ [line]\<rparr> else ?w1"
  have h: "heap ?w2 = heap w" by (simp add: log_call_def)
  show ?case
  proof (cases "BufferIsCompilableUnit eng (heap ?w2) (buffer @ line)")
    case True
    with Cons.prems h show ?thesis by (auto simp: Let_def)
  next
    case False
    with Cons.prems have "accumulate eng ?w2 s lines (buffer @ line) (l + 1) = (b, eof, l', rest, w1)"
      by (simp add: Let_def)
    from Cons.IH [OF this] h show ?thesis by simp
  qed
qed

lemma accumulate_joins:
  assumes "heap w = h" "0 < N" "N \<le> length lines"
    and "\<forall>k. 0 < k \<and> k < N \<longrightarrow> \<not> BufferIsCompilableUnit eng h (buffer @ concat (take k lines))"
    and "BufferIsCompilableUnit eng h (buffer @ concat (take N lines))"
  shows "\<exists>w1. accumulate eng w s lines buffer l
           = (buffer @ concat (take N lines), False, l + of_nat N, drop N lines, w1)"
  using assms
proof (induction lines arbitrary: w buffer l N)
  case Nil
  then show ?case by simp
next
  case (Cons line lines)
  let ?w1 = "log_call (CallReadline (prompt s l)) w"
  let ?w2 = "if line \<noteq> [] then ?w1\<lparr>history := history ?w1 @ [line]\<rparr> else ?w1"
  have h: "heap ?w2 = h" using Cons.prems(1) by (simp add: log_call_def)
  show ?case
  proof (cases "N = 1")
    case True
    with Cons.prems(5) have "BufferIsCompilableUnit eng h (buffer @ line)" by simp
    with h True show ?thesis by (simp add: Let_def)
  next
    case False
    with Cons.prems(2) obtain M where N: "N = Suc M" and M: "0 < M"
      by (cases N) auto
    from Cons.prems(4) [rule_format, of 1] False Cons.prems(2)
    have inc: "\<not> BufferIsCompilableUnit eng h (buffer @ line)" by simp
    have le: "M \<le> length lines" using Cons.prems(3) N by simp
    have pre: "\<forall>k. 0 < k \<and> k < M \<longrightarrow>
        \<not> BufferIsCompilableUnit eng h ((buffer @ line) @ concat (take k lines))"
    proof (intro allI impI)
      fix k assume "0 < k \<and> k < M"
      with Cons.prems(4) [rule_format, of "Suc k"] N
      show "\<not> BufferIsCompilableUnit eng h ((buffer @ line) @ concat (take k lines))" by simp
    qed
    have fin: "BufferIsCompilableUnit eng h ((buffer @ line) @ concat (take M lines))"
      using Cons.prems(5) N by simp
    from Cons.IH [OF h M le pre fin, of "l + 1"]
    obtain w1 where "accumulate eng ?w2 s lines (buffer @ line) (l + 1)
        = ((buffer @ line) @ concat (take M lines), False, l + 1 + of_nat M, drop M lines, w1)"
      by blast
    with inc h N show ?thesis by (simp add: Let_def add.assoc add.commute)
  qed
qed

lemma on_result_calls:
  "calls (fst (on_result eng ok w)) =
     calls w @ (if \<not> ok \<and> \<not> m_shouldQuit w then [CallReportAndClearException] else [])"
  by (simp add: on_result_def ReportAndClearException_calls)

lemma loop_body_unfold:
  assumes "accumulate eng w ln lines [] ln = (b, eof, l', rest, w1)"
    and "EvalAndPrint eng w1 b ln = (ok, w2)"
    and "on_result eng ok w2 = (w3, a)"
  shows "loop_body eng w ln lines =
     (case a of Some x \<Rightarrow> (w3, Some x, eof, l', rest)
      | None \<Rightarrow> (RunJobs_call eng w3, None, eof, l', rest))"
  using assms by (simp add: loop_body_def)

lemma loop_body_submitted:
  assumes "accumulate eng w ln lines [] ln = (b, eof, l', rest, w1)"
  shows "submitted (calls (fst (loop_body eng w ln lines))) = submitted (calls w) @ [(b, ln)]"
proof -
  obtain ok w2 where ev: "EvalAndPrint eng w1 b ln = (ok, w2)"
    by (cases "EvalAndPrint eng w1 b ln")
  obtain w3 a where on: "on_result eng ok w2 = (w3, a)"
    by (cases "on_result eng ok w2")
  have c1: "submitted (calls w1) = submitted (calls w)"
    using accumulate_frame [OF assms] by simp
  have c2: "calls w2 = calls w1 @ [CallEvalAndPrint b ln]"
    using EvalAndPrint_calls [of eng w1 b ln] by (simp add: ev)
  have c3: "submitted (calls w3) = submitted (calls w2)"
    using on_result_calls [of eng ok w2] by (simp add: on submitted_append)
  show ?thesis
    by (cases a)
      (simp_all add: loop_body_unfold [OF assms ev on] RunJobs_call_frame submitted_append c1 c2 c3)
qed

lemma accumulate_eof:
  "accumulate eng w s lines buffer l = (b, True, l', rest, w1) \<Longrightarrow> b = buffer @ concat lines"
proof (induction lines arbitrary: w buffer l)
  case Nil
  then show ?case by simp
next
  case (Cons line lines)
  let ?w1 = "log_call (CallReadline (prompt s l)) w"
  let ?w2 = "if line \<noteq> [] then ?w1\<lparr>history := history ?w1 @ [line]\<rparr> else ?w1"
  show ?case
  proof (cases "BufferIsCompilableUnit eng (heap ?w2) (buffer @ line)")
    case True
    with Cons.prems show ?thesis by (simp add: Let_def)
  next
    case False
    with Cons.prems have "accumulate eng ?w2 s lines (buffer @ line) (l + 1) = (b, True, l', rest, w1)"
      by (simp add: Let_def)
    from Cons.IH [OF this] show ?thesis by simp
  qed
qed

lemma loop_stops:
  assumes "loop_body eng w ln lines = (w', None, eof, ln', rest)" and "eof \<or> m_shouldQuit w'"
  shows "loop eng w ln lines = (w', None)"
  using assms by (subst loop.simps) auto

lemma accumulate_world:
  assumes "accumulate eng w s lines buffer l = (b, eof, l', rest, w1)"
  shows "heap w1 = heap w" "pending w1 = pending w" "cerr w1 = cerr w" "cout w1 = cout w"
    "m_shouldQuit w1 = m_shouldQuit w" "stopDraining w1 = stopDraining w"
  using accumulate_frame [OF assms] by simp_all

lemma EvalAndPrint_Quit:
  assumes "SourceInit eng (heap w) buffer = (Ok u, h1)"
    and "Evaluate eng h1 buffer ln = (Quit True, h2)"
  shows "EvalAndPrint eng w buffer ln =
     (False, w\<lparr>heap := h2, stopDraining := True, m_shouldQuit := True,
               calls := calls w @ [CallEvalAndPrint buffer ln]\<rparr>)"
  using assms
  by (simp add: EvalAndPrint_def Let_def log_call_def settle_def quit_def StopDrainingJobQueue_def)






lemma ClearPendingException_frame:
  "ClearPendingException (ClearPendingException w) = ClearPendingException w"
  "pending (ClearPendingException w) = None"
  "heap (ClearPendingException w) = heap w"
  "cerr (ClearPendingException w) = cerr w"
  "calls (ClearPendingException w) = calls w"
  by (simp_all add: ClearPendingException_def)

lemma ReportAndClearException_pending:
  assumes "pending w = Some exc"
  shows "ReportAndClearException eng w =
     (let w1 = ClearPendingException (log_call CallReportAndClearException w) in
      case ErrorFromExceptionValue eng w exc of
        None \<Rightarrow>
          (let r = FormatResult eng w1 exc
           in ((snd r)\<lparr>cerr := cerr w @ ''error: '' @ fst r @ [CHR 0x0A]\<rparr>, None))
      | Some report \<Rightarrow>
          (if is_warning report then (w1, Some AssertFailed)
           else (w1\<lparr>cerr := cerr w @ fst (PrintError (to_bytes eng) (string_alloc eng) report)\<rparr>,
                 snd (PrintError (to_bytes eng) (string_alloc eng) report))))"
proof -
  let ?w1 = "ClearPendingException (log_call CallReportAndClearException w)"
  have same: "ErrorFromExceptionValue eng ?w1 exc = ErrorFromExceptionValue eng w exc"
    by (simp add: ErrorFromExceptionValue_def ClearPendingException_frame log_call_frame
        split: Value.splits)
  show ?thesis
    using assms
    by (simp add: ReportAndClearException_def Let_def log_call_frame(2) same case_prod_beta
        ClearPendingException_frame FormatResult_frame log_call_frame(6)
        split: option.splits)
qed

lemma stop_follows_quit_simps:
  "stop_follows_quit (ClearPendingException w) = stop_follows_quit w"
  "stop_follows_quit (log_call c w) = stop_follows_quit w"
  "stop_follows_quit (w\<lparr>cerr := e\<rparr>) = stop_follows_quit w"
  "stop_follows_quit (w\<lparr>cout := u\<rparr>) = stop_follows_quit w"
  "stop_follows_quit (w\<lparr>heap := h\<rparr>) = stop_follows_quit w"
  by (simp_all add: stop_follows_quit_def ClearPendingException_def log_call_def)

lemma settle_stop:
  "stop_follows_quit w \<Longrightarrow> stop_follows_quit (snd (settle w r))"
  by (cases r; cases "fst r")
    (auto simp: settle_def quit_def StopDrainingJobQueue_def stop_follows_quit_def
      split: option.splits)

lemma encode_str_stop:
  "stop_follows_quit w \<Longrightarrow> stop_follows_quit (snd (encode_str eng w str))"
  by (simp add: encode_str_def case_prod_beta stop_follows_quit_simps settle_stop
      split: option.splits)

lemma FormatString_stop:
  "stop_follows_quit w \<Longrightarrow> stop_follows_quit (snd (FormatString eng w s))"
  by (simp add: FormatString_def case_prod_beta stop_follows_quit_simps settle_stop
      split: option.splits)

lemma class_fallback_stop:
  "stop_follows_quit w \<Longrightarrow> stop_follows_quit (snd (class_fallback eng v w))"
  by (simp add: class_fallback_def Let_def case_prod_beta stop_follows_quit_simps settle_stop
      encode_str_stop split: Value.splits option.splits)

lemma source_fallback_stop:
  "stop_follows_quit (snd r) \<Longrightarrow> stop_follows_quit (snd (source_fallback eng v r))"
  by (cases r; cases "fst r")
    (simp_all add: source_fallback_def Let_def stop_follows_quit_simps settle_stop)

lemma format_other_stop:
  assumes "stop_follows_quit w"
  shows "stop_follows_quit (snd (format_other eng w v))"
proof -
  obtain str2 w2 where s2:
    "source_fallback eng v (settle w (ToString eng (heap w) v)) = (str2, w2)"
    by (cases "source_fallback eng v (settle w (ToString eng (heap w) v))")
  have "stop_follows_quit w2"
    using source_fallback_stop [of "settle w (ToString eng (heap w) v)" eng v] assms
    by (simp add: s2 settle_stop)
  then show ?thesis
    by (cases str2) (simp_all add: format_other_def s2 class_fallback_stop encode_str_stop)
qed

lemma FormatResult_stop:
  "stop_follows_quit w \<Longrightarrow> stop_follows_quit (snd (FormatResult eng w v))"
  by (cases v) (simp_all add: FormatResult_def FormatString_stop format_other_stop)

lemma EvalAndPrint_stop:
  assumes "stop_follows_quit w"
  shows "stop_follows_quit (snd (EvalAndPrint eng w b l))"
proof -
  let ?w = "log_call (CallEvalAndPrint b l) w"
  obtain r1 w1 where s1: "settle ?w (SourceInit eng (heap w) b) = (r1, w1)"
    by (cases "settle ?w (SourceInit eng (heap w) b)")
  have c1: "stop_follows_quit w1"
    using settle_stop [of ?w "SourceInit eng (heap w) b"] assms
    by (simp add: s1 stop_follows_quit_simps)
  obtain r2 w2 where s2: "settle w1 (Evaluate eng (heap w1) b l) = (r2, w2)"
    by (cases "settle w1 (Evaluate eng (heap w1) b l)")
  have c2: "stop_follows_quit w2"
    using settle_stop [OF c1, of "Evaluate eng (heap w1) b l"] by (simp add: s2)
  show ?thesis
    using c1 c2
    by (simp add: EvalAndPrint_def Let_def log_call_frame s1 s2 case_prod_beta FormatResult_stop
        stop_follows_quit_simps split: option.splits Value.splits)
qed

lemma ReportAndClearException_stop:
  assumes "stop_follows_quit w"
  shows "stop_follows_quit (fst (ReportAndClearException eng w))"
proof (cases "pending w")
  case None
  with assms show ?thesis
    by (simp add: ReportAndClearException_def Let_def die_def log_call_frame
        stop_follows_quit_simps)
next
  case (Some exc)
  have "stop_follows_quit (ClearPendingException (log_call CallReportAndClearException w))"
    using assms by (simp add: stop_follows_quit_simps)
  then show ?thesis
    by (simp add: ReportAndClearException_pending [OF Some] Let_def FormatResult_stop
        stop_follows_quit_simps split: option.splits)
qed

lemma on_result_stop:
  "stop_follows_quit w \<Longrightarrow> stop_follows_quit (fst (on_result eng ok w))"
  by (simp add: on_result_def ReportAndClearException_stop)

lemma RunJobs_call_stop:
  "stop_follows_quit w \<Longrightarrow> stop_follows_quit (RunJobs_call eng w)"
  by (cases "RunJobs eng (stopDraining w) (heap w)")
    (auto simp: RunJobs_call_def Let_def log_call_def quit_def StopDrainingJobQueue_def
      stop_follows_quit_def split: option.splits)

section \<open>The caret line\<close>

text \<open>
  C3. A diagnostic whose token offset is 5 and whose source line begins with one tab and
  four spaces gets 12 filler characters before the caret: the count is 12, and the text
  \<open>PrintErrorLine\<close> writes ends in twelve dots and the caret (a string of twelve
  characters being one the library can build).
\<close>

theorem caret_after_tab_and_four_spaces:
  "caret_ndots (9 # 32 # 32 # 32 # 32 # rest) 5 = Inr 12
   \<and> PrintErrorLine (\<lambda>b. Some u) fits prefix
         (report\<lparr>linebuf := Some (9 # 32 # 32 # 32 # 32 # rest), tokenOffset := 5\<rparr>)
       = (if fits 12
          then ('':'' @ [CHR 0x0A] @ prefix @ u
                  @ (if last (32 # rest) \<noteq> 10 then [CHR 0x0A] else [])
                  @ prefix @ replicate 12 (CHR ''.'') @ ''^'', None)
          else ('':'' @ [CHR 0x0A] @ prefix @ u
                  @ (if last (32 # rest) \<noteq> 10 then [CHR 0x0A] else [])
                  @ prefix, Some StringThrew))"
  by (simp add: caret_ndots_def PrintErrorLine_def)

theorem caret_after_tab_and_four_spaces_witness:
  "PrintErrorLine (\<lambda>b. Some ''...'') (string_alloc toy_engine) ''typein:1:5 ''
     (toy_report\<lparr>linebuf := Some [9, 32, 32, 32, 32, 120], tokenOffset := 5\<rparr>)
   = ('':'' @ [CHR 0x0A] @ ''typein:1:5 '' @ ''...'' @ [CHR 0x0A] @ ''typein:1:5 ''
        @ replicate 12 (CHR ''.'') @ ''^'', None)"
  using caret_after_tab_and_four_spaces
          [of "[120]" "''...''" "string_alloc toy_engine" "''typein:1:5 ''" toy_report]
  by (simp add: toy_engine_def)

text \<open>
  C2. A tab is claimed to round the filler count up to the next multiple of 8. For the
  source line \<open>a\<close>, tab, \<open>b\<close> and token offset 2 the rule gives 8; the code, which
  adds \<open>(ndots + 8) & ~7\<close> to the count instead of assigning it, gives 9.
\<close>

theorem tab_after_one_column_adds_eight:
  "caret_ndots [97, 9, 98] 2 = Inr 9 \<and>
   spec_dots (take 2 [97, 9, 98]) 0 = 8 \<and>
   PrintErrorLine (\<lambda>b. Some u) fits prefix
       (report\<lparr>linebuf := Some [97, 9, 98], tokenOffset := 2\<rparr>)
     = (if fits 9
        then ('':'' @ [CHR 0x0A] @ prefix @ u @ [CHR 0x0A] @ prefix
                @ replicate 9 (CHR ''.'') @ ''^'', None)
        else ('':'' @ [CHR 0x0A] @ prefix @ u @ [CHR 0x0A] @ prefix, Some StringThrew))"
  by (simp add: caret_ndots_def PrintErrorLine_def)

section \<open>The result formatter\<close>

text \<open>
  C6. For any evaluated value, a formatter entered with no exception pending returns with
  none pending: every fault a step of the fallback chain raised has been cleared. For a
  value that faults at every step the formatter takes on it, the result is one of the
  four literal placeholders, and nothing is left pending whatever was pending before.
\<close>

theorem FormatResult_clears_every_fault:
  "(pending w = None \<longrightarrow> pending (snd (FormatResult eng w v)) = None) \<and>
   (faults_at_every_step eng (heap w) v \<longrightarrow>
      fst (FormatResult eng w v) \<in> placeholders \<and> pending (snd (FormatResult eng w v)) = None)"
proof (intro conjI impI)
  assume "pending w = None"
  then show "pending (snd (FormatResult eng w v)) = None"
    by (rule FormatResult_pending)
next
  assume f: "faults_at_every_step eng (heap w) v"
  then show "fst (FormatResult eng w v) \<in> placeholders"
    by (rule FormatResult_faults)
  show "pending (snd (FormatResult eng w v)) = None"
  proof (cases v)
    case (JSString s)
    with f have "faulted (fst (EncodeStringToUTF8 eng (heap w) s))"
      by (simp add: faults_at_every_step_def)
    from FormatString_clears_on_fault [OF this] JSString show ?thesis
      by (simp add: FormatResult_def)
  next
    case (JSObject obj)
    with format_other_clears_on_fault [OF f] show ?thesis by (simp add: FormatResult_def)
  next
    case JSUndefined
    with format_other_clears_on_fault [OF f] show ?thesis by (simp add: FormatResult_def)
  next
    case (JSPrimitive n)
    with format_other_clears_on_fault [OF f] show ?thesis by (simp add: FormatResult_def)
  qed
qed

theorem FormatResult_clears_every_fault_witness:
  "pending world0 = None \<and>
   faults_at_every_step toy_engine (heap world0) (JSObject 0) \<and>
   fst (FormatResult toy_engine world0 (JSObject 0)) \<in> placeholders \<and>
   pending (snd (FormatResult toy_engine world0 (JSObject 0))) = None \<and>
   FormatResult toy_engine world0 (JSObject 0) = (''[unknown object]'', world0) \<and>
   faults_at_every_step faulting_engine
     (heap (world0\<lparr>pending := Some (JSPrimitive 5)\<rparr>)) (JSObject 3) \<and>
   pending (snd (FormatResult faulting_engine
                   (world0\<lparr>pending := Some (JSPrimitive 5)\<rparr>) (JSObject 3))) = None \<and>
   FormatResult faulting_engine (world0\<lparr>pending := Some (JSPrimitive 5)\<rparr>) (JSObject 3)
     = (''[invalid class]'', world0)"
proof -
  let ?w5 = "world0\<lparr>pending := Some (JSPrimitive 5)\<rparr>"
  have p0: "pending world0 = None"
    by (simp add: world0_def)
  have a: "faults_at_every_step toy_engine (heap world0) (JSObject 0)"
    by (simp add: faults_at_every_step_def toy_engine_def toy_ToString_def world0_def)
  have b: "faults_at_every_step faulting_engine (heap ?w5) (JSObject 3)"
    by (simp add: faults_at_every_step_def faulting_engine_def toy_engine_def)
  have r1: "FormatResult toy_engine world0 (JSObject 0) = (''[unknown object]'', world0)"
    by (simp add: FormatResult_def format_other_def source_fallback_def class_fallback_def
        settle_def ClearPendingException_def Let_def toy_engine_def toy_ToString_def world0_def)
  have r2: "FormatResult faulting_engine ?w5 (JSObject 3) = (''[invalid class]'', world0)"
    by (simp add: FormatResult_def format_other_def source_fallback_def class_fallback_def
        encode_str_def settle_def ClearPendingException_def Let_def faulting_engine_def
        toy_engine_def world0_def)
  have t1: "fst (FormatResult toy_engine world0 (JSObject 0)) \<in> placeholders \<and>
      pending (snd (FormatResult toy_engine world0 (JSObject 0))) = None"
    using FormatResult_clears_every_fault [of world0 toy_engine "JSObject 0"] a by blast
  have t2: "pending (snd (FormatResult faulting_engine ?w5 (JSObject 3))) = None"
    using FormatResult_clears_every_fault [of ?w5 faulting_engine "JSObject 3"] b by blast
  from p0 a t1 r1 b t2 r2 show ?thesis by blast
qed

section \<open>The read-eval loop\<close>

text \<open>
  C7. When the probe reports the joined text incomplete after each of the first
  \<open>N - 1\<close> lines and complete after \<open>N\<close> lines, the accumulated buffer is the
  concatenation of those \<open>N\<close> lines in the order read, and that buffer is what the turn
  of the loop hands to \<open>EvalAndPrint\<close>.
\<close>

theorem multi_line_buffer_is_concatenation:
  assumes "0 < N" and "N \<le> length lines"
    and "\<forall>k. 0 < k \<and> k < N \<longrightarrow> \<not> BufferIsCompilableUnit eng (heap w) (concat (take k lines))"
    and "BufferIsCompilableUnit eng (heap w) (concat (take N lines))"
  shows "fst (accumulate eng w ln lines [] ln) = concat (take N lines) \<and>
         submitted (calls (fst (loop_body eng w ln lines)))
           = submitted (calls w) @ [(concat (take N lines), ln)]"
proof -
  from accumulate_joins [of w "heap w" N lines eng "[]" ln ln] assms
  obtain w1 where acc: "accumulate eng w ln lines [] ln
      = (concat (take N lines), False, ln + of_nat N, drop N lines, w1)"
    by auto
  from loop_body_submitted [OF acc] acc show ?thesis by simp
qed

theorem multi_line_buffer_is_concatenation_witness:
  "fst (accumulate toy_engine world0 1 [''function f() {'', ''return 1'', ''}'', ''x''] [] 1)
     = ''function f() {return 1}'' \<and>
   submitted (calls (fst (loop_body toy_engine world0 1
       [''function f() {'', ''return 1'', ''}'', ''x''])))
     = [(''function f() {return 1}'', 1)]"
proof -
  let ?lines = "[''function f() {'', ''return 1'', ''}'', ''x'']"
  have inc: "\<forall>k. 0 < k \<and> k < 3 \<longrightarrow>
      \<not> BufferIsCompilableUnit toy_engine (heap world0) (concat (take k ?lines))"
  proof (intro allI impI)
    fix k :: nat assume "0 < k \<and> k < 3"
    then have "k = 1 \<or> k = 2" by arith
    then show "\<not> BufferIsCompilableUnit toy_engine (heap world0) (concat (take k ?lines))"
      by (auto simp: toy_engine_def numeral_2_eq_2)
  qed
  have fin: "BufferIsCompilableUnit toy_engine (heap world0) (concat (take 3 ?lines))"
    by (simp add: toy_engine_def)
  from multi_line_buffer_is_concatenation [of 3 ?lines toy_engine world0 1, OF _ _ inc fin]
  show ?thesis by (simp add: world0_def)
qed

text \<open>
  At end of input the loop still calls \<open>EvalAndPrint\<close>: with no line read at all,
  the empty buffer is submitted.
\<close>

theorem empty_buffer_submitted_at_end_of_input:
  "fst (snd (accumulate toy_engine world0 1 [] [] 1)) \<and>
   fst (accumulate toy_engine world0 1 [] [] 1) = [] \<and>
   submitted (calls (fst (loop toy_engine world0 1 []))) = [([], 1)]"
  by code_simp

text \<open>
  C4, as the code has it. The buffer a turn of the loop hands to \<open>EvalAndPrint\<close> is
  one the probe has confirmed complete, or input has ended; when input has ended the
  buffer is the concatenation of all the lines read so far and is submitted as it is,
  empty or not.
\<close>

theorem buffer_submitted_when_complete_or_input_ended:
  assumes "accumulate eng w ln lines [] ln = (buffer, eof, ln', rest, w1)"
  shows "(eof \<or> BufferIsCompilableUnit eng (heap w) buffer) \<and>
         (eof \<longrightarrow> buffer = concat lines) \<and>
         submitted (calls (fst (loop_body eng w ln lines))) = submitted (calls w) @ [(buffer, ln)]"
  using accumulate_complete_or_eof [OF assms] accumulate_eof [of eng w ln lines "[]" ln buffer ln' rest w1]
    loop_body_submitted [OF assms] assms
  by auto

theorem buffer_submitted_when_complete_or_input_ended_witness:
  "submitted (calls (fst (loop_body toy_engine world0 1 [''{'']))) = [(''{'', 1)] \<and>
   \<not> BufferIsCompilableUnit toy_engine (heap world0) ''{''"
proof -
  have acc: "accumulate toy_engine world0 1 [''{''] [] 1
      = (''{'', True, 2, [],
         world0\<lparr>history := [''{''], calls := [CallReadline ''js> '', CallReadline ''... '']\<rparr>)"
    by (simp add: toy_engine_def world0_def log_call_def prompt_def)
  from buffer_submitted_when_complete_or_input_ended [OF acc]
  show ?thesis by (simp add: world0_def toy_engine_def)
qed

text \<open>
  C5. After every evaluation, successful or failed, that has not stopped the process,
  the turn of the loop ends with the drain, and the next prompt, if there is one, comes
  after it. With the quit flag unset the engine drains its queue, not having been told
  to stop. With the quit flag set nothing is drained: the engine has been told to stop,
  an engine that honours the stop runs no job, and the step leaves the state as it was.
\<close>

theorem job_queue_drained_unless_quitting:
  assumes "accumulate eng w ln lines [] ln = (buffer, eof, ln', rest, w1)"
    and "EvalAndPrint eng w1 buffer ln = (ok, w2)"
    and "on_result eng ok w2 = (w3, None)"
    and "stop_follows_quit w"
    and "drain_honours_stop eng"
  shows "loop_body eng w ln lines = (RunJobs_call eng w3, None, eof, ln', rest) \<and>
         (\<not> m_shouldQuit w3 \<longrightarrow>
            heap (RunJobs_call eng w3) = snd (RunJobs eng False (heap w3)) \<and>
            calls (RunJobs_call eng w3) = calls w3 @ [CallRunJobs]) \<and>
         (m_shouldQuit w3 \<longrightarrow> RunJobs_call eng w3 = log_call CallRunJobs w3) \<and>
         stop_follows_quit (RunJobs_call eng w3) \<and>
         loop eng w ln lines =
           (if \<not> eof \<and> \<not> m_shouldQuit (RunJobs_call eng w3)
            then loop eng (RunJobs_call eng w3) ln' rest
            else (RunJobs_call eng w3, None))"
proof -
  have i1: "stop_follows_quit w1"
    using accumulate_frame [OF assms(1)] assms(4) by (simp add: stop_follows_quit_def)
  have i2: "stop_follows_quit w2"
    using EvalAndPrint_stop [OF i1, of eng buffer ln] assms(2) by simp
  have i3: "stop_follows_quit w3"
    using on_result_stop [OF i2, of eng ok] assms(3) by simp
  have body: "loop_body eng w ln lines = (RunJobs_call eng w3, None, eof, ln', rest)"
    using loop_body_unfold [OF assms(1-3)] by simp
  have drain: "heap (RunJobs_call eng w3) = snd (RunJobs eng False (heap w3))"
    if "\<not> m_shouldQuit w3"
  proof -
    from that i3 have "\<not> stopDraining w3" by (simp add: stop_follows_quit_def)
    then show ?thesis
      by (cases "RunJobs eng False (heap w3)")
        (auto simp: RunJobs_call_def Let_def log_call_def quit_def StopDrainingJobQueue_def
          split: option.splits)
  qed
  have skip: "RunJobs_call eng w3 = log_call CallRunJobs w3" if "m_shouldQuit w3"
  proof -
    from that i3 have "stopDraining w3" by (simp add: stop_follows_quit_def)
    with assms(5) show ?thesis
      by (simp add: RunJobs_call_def Let_def log_call_def drain_honours_stop_def)
  qed
  have next_turn: "loop eng w ln lines =
           (if \<not> eof \<and> \<not> m_shouldQuit (RunJobs_call eng w3)
            then loop eng (RunJobs_call eng w3) ln' rest
            else (RunJobs_call eng w3, None))"
    by (subst loop.simps) (simp add: body)
  from body drain skip RunJobs_call_stop [OF i3, of eng] next_turn show ?thesis
    by (simp add: RunJobs_call_frame)
qed

theorem job_queue_drained_unless_quitting_witness:
  "stop_follows_quit world0 \<and> drain_honours_stop toy_engine \<and>
   loop_body toy_engine world0 1 [''later()'', ''x'']
     = (world0\<lparr>history := [''later()''],
          calls := [CallReadline ''js> '', CallEvalAndPrint ''later()'' 1, CallRunJobs]\<rparr>,
        None, False, 2, [''x'']) \<and>
   loop_body toy_engine world0 1 [''later(); quit()'', ''x'']
     = (world0\<lparr>heap := [''job''], stopDraining := True, m_shouldQuit := True,
          history := [''later(); quit()''],
          calls := [CallReadline ''js> '', CallEvalAndPrint ''later(); quit()'' 1,
                    CallRunJobs]\<rparr>,
        None, False, 2, [''x''])"
proof -
  let ?w1 = "world0\<lparr>history := [''later()''], calls := [CallReadline ''js> '']\<rparr>"
  let ?w2 = "world0\<lparr>heap := [''job''], history := [''later()''],
               calls := [CallReadline ''js> '', CallEvalAndPrint ''later()'' 1]\<rparr>"
  let ?v1 = "world0\<lparr>history := [''later(); quit()''], calls := [CallReadline ''js> '']\<rparr>"
  let ?v2 = "world0\<lparr>heap := [''job''], stopDraining := True, m_shouldQuit := True,
               history := [''later(); quit()''],
               calls := [CallReadline ''js> '', CallEvalAndPrint ''later(); quit()'' 1]\<rparr>"
  have inv: "stop_follows_quit world0"
    by (simp add: stop_follows_quit_def world0_def)
  have dr: "drain_honours_stop toy_engine"
    by (simp add: drain_honours_stop_def toy_engine_def)
  have acc: "accumulate toy_engine world0 1 [''later()'', ''x''] [] 1
      = (''later()'', False, 2, [''x''], ?w1)"
    by code_simp
  have ev: "EvalAndPrint toy_engine ?w1 ''later()'' 1 = (True, ?w2)"
    by code_simp
  have on: "on_result toy_engine True ?w2 = (?w2, None)"
    by code_simp
  have run: "RunJobs_call toy_engine ?w2
      = world0\<lparr>history := [''later()''],
          calls := [CallReadline ''js> '', CallEvalAndPrint ''later()'' 1, CallRunJobs]\<rparr>"
    by code_simp
  have acc': "accumulate toy_engine world0 1 [''later(); quit()'', ''x''] [] 1
      = (''later(); quit()'', False, 2, [''x''], ?v1)"
    by code_simp
  have ev': "EvalAndPrint toy_engine ?v1 ''later(); quit()'' 1 = (False, ?v2)"
    by code_simp
  have on': "on_result toy_engine False ?v2 = (?v2, None)"
    by code_simp
  have run': "log_call CallRunJobs ?v2
      = world0\<lparr>heap := [''job''], stopDraining := True, m_shouldQuit := True,
          history := [''later(); quit()''],
          calls := [CallReadline ''js> '', CallEvalAndPrint ''later(); quit()'' 1,
                    CallRunJobs]\<rparr>"
    by code_simp
  have q: "m_shouldQuit ?v2"
    by (simp add: world0_def)
  have one: "loop_body toy_engine world0 1 [''later()'', ''x'']
      = (RunJobs_call toy_engine ?w2, None, False, 2, [''x''])"
    using job_queue_drained_unless_quitting [OF acc ev on inv dr] by blast
  have two: "loop_body toy_engine world0 1 [''later(); quit()'', ''x'']
        = (RunJobs_call toy_engine ?v2, None, False, 2, [''x'']) \<and>
      RunJobs_call toy_engine ?v2 = log_call CallRunJobs ?v2"
    using job_queue_drained_unless_quitting [OF acc' ev' on' inv dr] q by blast
  from inv dr one two show ?thesis
    by (simp only: run run')
qed

text \<open>
  C1. When \<open>EvalAndPrint\<close> fails, the loop looks at the quit flag first. If it is
  set, \<open>ReportAndClearException\<close> is not called, the error stream stays as the
  evaluation left it, and the loop returns after this turn. If it is unset, the turn of
  the loop runs \<open>ReportAndClearException\<close> on the state the evaluation left: the
  loop stops where the reporter stops the process, and otherwise goes on from what the
  reporter returned, through the drain.
\<close>

theorem failed_evaluation_consults_quit_flag_before_reporting:
  assumes "accumulate eng w ln lines [] ln = (buffer, eof, ln', rest, w1)"
    and "EvalAndPrint eng w1 buffer ln = (False, w2)"
  shows "(m_shouldQuit w2 \<longrightarrow>
            on_result eng False w2 = (w2, None) \<and>
            loop eng w ln lines = (RunJobs_call eng w2, None) \<and>
            cerr (fst (loop eng w ln lines)) = cerr w2 \<and>
            calls (fst (loop eng w ln lines)) = calls w2 @ [CallRunJobs]) \<and>
         (\<not> m_shouldQuit w2 \<longrightarrow>
            on_result eng False w2 = ReportAndClearException eng w2 \<and>
            calls (fst (on_result eng False w2)) = calls w2 @ [CallReportAndClearException] \<and>
            loop_body eng w ln lines =
              (case ReportAndClearException eng w2 of
                 (w3, Some x) \<Rightarrow> (w3, Some x, eof, ln', rest)
               | (w3, None) \<Rightarrow> (RunJobs_call eng w3, None, eof, ln', rest)) \<and>
            loop eng w ln lines =
              (case ReportAndClearException eng w2 of
                 (w3, Some x) \<Rightarrow> (w3, Some x)
               | (w3, None) \<Rightarrow>
                   (if \<not> eof \<and> \<not> m_shouldQuit (RunJobs_call eng w3)
                    then loop eng (RunJobs_call eng w3) ln' rest
                    else (RunJobs_call eng w3, None))))"
proof (intro conjI impI)
  assume q: "m_shouldQuit w2"
  then show on: "on_result eng False w2 = (w2, None)"
    by (simp add: on_result_def)
  have body: "loop_body eng w ln lines = (RunJobs_call eng w2, None, eof, ln', rest)"
    using loop_body_unfold [OF assms on] by simp
  from loop_stops [OF body] q show l: "loop eng w ln lines = (RunJobs_call eng w2, None)"
    by (simp add: RunJobs_call_frame)
  show "cerr (fst (loop eng w ln lines)) = cerr w2"
    by (simp add: l RunJobs_call_frame)
  show "calls (fst (loop eng w ln lines)) = calls w2 @ [CallRunJobs]"
    by (simp add: l RunJobs_call_frame)
next
  assume nq: "\<not> m_shouldQuit w2"
  then show on: "on_result eng False w2 = ReportAndClearException eng w2"
    and "calls (fst (on_result eng False w2)) = calls w2 @ [CallReportAndClearException]"
    by (simp_all add: on_result_def ReportAndClearException_calls)
  obtain w3 a where r: "ReportAndClearException eng w2 = (w3, a)"
    by (cases "ReportAndClearException eng w2")
  from loop_body_unfold [OF assms, of w3 a] on r
  show body: "loop_body eng w ln lines =
              (case ReportAndClearException eng w2 of
                 (w3, Some x) \<Rightarrow> (w3, Some x, eof, ln', rest)
               | (w3, None) \<Rightarrow> (RunJobs_call eng w3, None, eof, ln', rest))"
    by (cases a) simp_all
  show "loop eng w ln lines =
              (case ReportAndClearException eng w2 of
                 (w3, Some x) \<Rightarrow> (w3, Some x)
               | (w3, None) \<Rightarrow>
                   (if \<not> eof \<and> \<not> m_shouldQuit (RunJobs_call eng w3)
                    then loop eng (RunJobs_call eng w3) ln' rest
                    else (RunJobs_call eng w3, None)))"
    by (subst loop.simps) (cases a; simp add: body r)
qed

theorem failed_evaluation_consults_quit_flag_before_reporting_witness:
  "loop toy_engine world0 1 [''quit()'']
     = (world0\<lparr>stopDraining := True, m_shouldQuit := True, history := [''quit()''],
          calls := [CallReadline ''js> '', CallEvalAndPrint ''quit()'' 1, CallRunJobs]\<rparr>, None) \<and>
   loop_body toy_engine world0 1 [''throw 1'', ''quit()'']
     = (world0\<lparr>history := [''throw 1''], cerr := ''error: 1'' @ [CHR 0x0A],
          calls := [CallReadline ''js> '', CallEvalAndPrint ''throw 1'' 1,
                    CallReportAndClearException, CallRunJobs]\<rparr>,
        None, False, 2, [''quit()''])"
proof -
  let ?w1 = "world0\<lparr>history := [''quit()''], calls := [CallReadline ''js> '']\<rparr>"
  let ?w2 = "world0\<lparr>stopDraining := True, m_shouldQuit := True, history := [''quit()''],
               calls := [CallReadline ''js> '', CallEvalAndPrint ''quit()'' 1]\<rparr>"
  let ?v1 = "world0\<lparr>history := [''throw 1''], calls := [CallReadline ''js> '']\<rparr>"
  let ?v2 = "world0\<lparr>history := [''throw 1''], pending := Some (JSPrimitive 1),
               calls := [CallReadline ''js> '', CallEvalAndPrint ''throw 1'' 1]\<rparr>"
  have acc: "accumulate toy_engine world0 1 [''quit()''] [] 1 = (''quit()'', False, 2, [], ?w1)"
    by code_simp
  have ev: "EvalAndPrint toy_engine ?w1 ''quit()'' 1 = (False, ?w2)"
    by code_simp
  have q: "m_shouldQuit ?w2"
    by (simp add: world0_def)
  have run: "RunJobs_call toy_engine ?w2
      = world0\<lparr>stopDraining := True, m_shouldQuit := True, history := [''quit()''],
          calls := [CallReadline ''js> '', CallEvalAndPrint ''quit()'' 1, CallRunJobs]\<rparr>"
    by code_simp
  have acc': "accumulate toy_engine world0 1 [''throw 1'', ''quit()''] [] 1
      = (''throw 1'', False, 2, [''quit()''], ?v1)"
    by code_simp
  have ev': "EvalAndPrint toy_engine ?v1 ''throw 1'' 1 = (False, ?v2)"
    by code_simp
  have nq: "\<not> m_shouldQuit ?v2"
    by (simp add: world0_def)
  have rep: "ReportAndClearException toy_engine ?v2
      = (world0\<lparr>history := [''throw 1''], cerr := ''error: 1'' @ [CHR 0x0A],
           calls := [CallReadline ''js> '', CallEvalAndPrint ''throw 1'' 1,
                     CallReportAndClearException]\<rparr>, None)"
    by code_simp
  have run': "RunJobs_call toy_engine
        (world0\<lparr>history := [''throw 1''], cerr := ''error: 1'' @ [CHR 0x0A],
           calls := [CallReadline ''js> '', CallEvalAndPrint ''throw 1'' 1,
                     CallReportAndClearException]\<rparr>)
      = world0\<lparr>history := [''throw 1''], cerr := ''error: 1'' @ [CHR 0x0A],
          calls := [CallReadline ''js> '', CallEvalAndPrint ''throw 1'' 1,
                    CallReportAndClearException, CallRunJobs]\<rparr>"
    by code_simp
  have one: "loop toy_engine world0 1 [''quit()'']
      = (world0\<lparr>stopDraining := True, m_shouldQuit := True, history := [''quit()''],
          calls := [CallReadline ''js> '', CallEvalAndPrint ''quit()'' 1, CallRunJobs]\<rparr>, None)"
    using failed_evaluation_consults_quit_flag_before_reporting [OF acc ev] q run by simp
  have two: "loop_body toy_engine world0 1 [''throw 1'', ''quit()'']
     = (world0\<lparr>history := [''throw 1''], cerr := ''error: 1'' @ [CHR 0x0A],
          calls := [CallReadline ''js> '', CallEvalAndPrint ''throw 1'' 1,
                    CallReportAndClearException, CallRunJobs]\<rparr>,
        None, False, 2, [''quit()''])"
  proof -
    have "loop_body toy_engine world0 1 [''throw 1'', ''quit()''] =
        (case ReportAndClearException toy_engine ?v2 of
           (w3, Some x) \<Rightarrow> (w3, Some x, False, 2, [''quit()''])
         | (w3, None) \<Rightarrow> (RunJobs_call toy_engine w3, None, False, 2, [''quit()'']))"
      using failed_evaluation_consults_quit_flag_before_reporting [OF acc' ev'] nq by blast
    then show ?thesis
      by (simp only: rep prod.case option.case run')
  qed
  from one two show ?thesis by blast
qed

section \<open>Quitting\<close>

text \<open>
  C10. \<open>quit\<close>, invoked on the global, sets the quit flag, calls
  \<open>js::StopDrainingJobQueue\<close> and returns false, leaving the pending exception as it
  was. When the script of a turn invokes it, the loop returns after that turn with the
  engine's state exactly as the evaluation left it, given an engine whose drain honours
  the stop: no job queued before the call runs after it. Whenever the quit flag is set
  at the end of a turn, the loop returns without another call.
\<close>

theorem quit_stops_draining_so_queued_jobs_never_run:
  "quit True w = (False, w\<lparr>m_shouldQuit := True, stopDraining := True\<rparr>) \<and>
   (accumulate eng w ln lines [] ln = (buffer, eof, ln', rest, w1) \<and>
    SourceInit eng (heap w) buffer = (Ok u, h1) \<and>
    Evaluate eng h1 buffer ln = (Quit True, h2) \<and>
    drain_honours_stop eng \<longrightarrow>
      loop eng w ln lines =
        (w1\<lparr>heap := h2, stopDraining := True, m_shouldQuit := True,
            calls := calls w1 @ [CallEvalAndPrint buffer ln, CallRunJobs]\<rparr>, None) \<and>
      pending w1 = pending w) \<and>
   (loop_body eng w ln lines = (w', None, eof, ln', rest) \<and> m_shouldQuit w' \<longrightarrow>
      loop eng w ln lines = (w', None))"
proof (intro conjI impI)
  show "quit True w = (False, w\<lparr>m_shouldQuit := True, stopDraining := True\<rparr>)"
    by (simp add: quit_def StopDrainingJobQueue_def)
next
  assume "loop_body eng w ln lines = (w', None, eof, ln', rest) \<and> m_shouldQuit w'"
  then show "loop eng w ln lines = (w', None)"
    using loop_stops [of eng w ln lines w' eof ln' rest] by simp
next
  assume a: "accumulate eng w ln lines [] ln = (buffer, eof, ln', rest, w1) \<and>
    SourceInit eng (heap w) buffer = (Ok u, h1) \<and>
    Evaluate eng h1 buffer ln = (Quit True, h2) \<and> drain_honours_stop eng"
  then have acc: "accumulate eng w ln lines [] ln = (buffer, eof, ln', rest, w1)" by simp
  let ?w2 = "w1\<lparr>heap := h2, stopDraining := True, m_shouldQuit := True,
               calls := calls w1 @ [CallEvalAndPrint buffer ln]\<rparr>"
  have ev: "EvalAndPrint eng w1 buffer ln = (False, ?w2)"
    using a accumulate_world(1) [OF acc] by (simp add: EvalAndPrint_Quit)
  have on: "on_result eng False ?w2 = (?w2, None)"
    by (simp add: on_result_def)
  have run: "RunJobs_call eng ?w2 =
      w1\<lparr>heap := h2, stopDraining := True, m_shouldQuit := True,
          calls := calls w1 @ [CallEvalAndPrint buffer ln, CallRunJobs]\<rparr>"
    using a by (simp add: RunJobs_call_def Let_def log_call_def drain_honours_stop_def)
  have body: "loop_body eng w ln lines = (RunJobs_call eng ?w2, None, eof, ln', rest)"
    using loop_body_unfold [OF acc ev on] by simp
  from loop_stops [OF body] show "loop eng w ln lines =
        (w1\<lparr>heap := h2, stopDraining := True, m_shouldQuit := True,
            calls := calls w1 @ [CallEvalAndPrint buffer ln, CallRunJobs]\<rparr>, None)"
    by (simp add: run)
  show "pending w1 = pending w"
    using accumulate_world(2) [OF acc] .
qed

theorem quit_stops_draining_so_queued_jobs_never_run_witness:
  "drain_honours_stop toy_engine \<and>
   loop toy_engine world0 1 [''later(); quit()'', ''later()'']
     = (world0\<lparr>heap := [''job''], stopDraining := True, m_shouldQuit := True,
          history := [''later(); quit()''],
          calls := [CallReadline ''js> '', CallEvalAndPrint ''later(); quit()'' 1,
                    CallRunJobs]\<rparr>, None)"
proof -
  let ?w1 = "world0\<lparr>history := [''later(); quit()''], calls := [CallReadline ''js> '']\<rparr>"
  have acc: "accumulate toy_engine world0 1 [''later(); quit()'', ''later()''] [] 1
      = (''later(); quit()'', False, 2, [''later()''], ?w1)"
    by code_simp
  have src: "SourceInit toy_engine (heap world0) ''later(); quit()'' = (Ok (), [])"
    by (simp add: toy_engine_def world0_def)
  have ev: "Evaluate toy_engine [] ''later(); quit()'' 1 = (Quit True, [''job''])"
    by (simp add: toy_engine_def toy_Evaluate_def)
  have dr: "drain_honours_stop toy_engine"
    by (simp add: drain_honours_stop_def toy_engine_def)
  from quit_stops_draining_so_queued_jobs_never_run
         [of world0 toy_engine 1 "[''later(); quit()'', ''later()'']" "''later(); quit()''"
             False 2 "[''later()'']" ?w1 "()" "[]" "[''job'']" ?w1]
       acc src ev dr
  show ?thesis by (simp add: world0_def)
qed

section \<open>The exception reporter\<close>




section \<open>Printing the result\<close>

text \<open>
  C8. A successful evaluation whose result is the string \<open>hello\<close> writes
  \<open>"hello"\<close>, in double quotes and followed by a newline, to the output stream; one
  whose result is undefined writes nothing.
\<close>

theorem EvalAndPrint_prints_quoted_string_and_nothing_for_undefined:
  "(SourceInit eng (heap w) buffer = (Ok u, h1) \<and>
    Evaluate eng h1 buffer ln = (Ok (JSString s), h2) \<and>
    EncodeStringToUTF8 eng (MaybeGC eng h2) s = (Ok ''hello'', h3) \<longrightarrow>
      fst (EvalAndPrint eng w buffer ln) \<and>
      cout (snd (EvalAndPrint eng w buffer ln))
        = cout w @ [CHR 0x22] @ ''hello'' @ [CHR 0x22] @ [CHR 0x0A] \<and>
      cerr (snd (EvalAndPrint eng w buffer ln)) = cerr w) \<and>
   (SourceInit eng (heap w) buffer = (Ok u, h1) \<and>
    Evaluate eng h1 buffer ln = (Ok JSUndefined, h2) \<longrightarrow>
      fst (EvalAndPrint eng w buffer ln) \<and>
      cout (snd (EvalAndPrint eng w buffer ln)) = cout w \<and>
      cerr (snd (EvalAndPrint eng w buffer ln)) = cerr w)"
  by (simp add: EvalAndPrint_def log_call_def settle_def Let_def FormatResult_def FormatString_def)

theorem EvalAndPrint_prints_quoted_string_and_nothing_for_undefined_witness:
  "cout (snd (EvalAndPrint toy_engine world0 ([CHR 0x22] @ ''hello'' @ [CHR 0x22]) 1))
     = [CHR 0x22] @ ''hello'' @ [CHR 0x22] @ [CHR 0x0A] \<and>
   cout (snd (EvalAndPrint toy_engine world0 ''void 0'' 1)) = []"
proof -
  have a: "SourceInit toy_engine (heap world0) ([CHR 0x22] @ ''hello'' @ [CHR 0x22]) = (Ok (), [])"
    and b: "Evaluate toy_engine [] ([CHR 0x22] @ ''hello'' @ [CHR 0x22]) 1 = (Ok (JSString ''hello''), [])"
    and c: "EncodeStringToUTF8 toy_engine (MaybeGC toy_engine []) ''hello'' = (Ok ''hello'', [])"
    and d: "SourceInit toy_engine (heap world0) ''void 0'' = (Ok (), [])"
    and e: "Evaluate toy_engine [] ''void 0'' 1 = (Ok JSUndefined, [])"
    by (simp_all add: toy_engine_def toy_Evaluate_def world0_def)
  from EvalAndPrint_prints_quoted_string_and_nothing_for_undefined
         [of toy_engine world0 "[CHR 0x22] @ ''hello'' @ [CHR 0x22]" "()" "[]" 1 "''hello''" "[]" "[]"]
       EvalAndPrint_prints_quoted_string_and_nothing_for_undefined
         [of toy_engine world0 "''void 0''" "()" "[]" 1 "''hello''" "[]" "[]"]
       a b c d e
  show ?thesis by (simp add: world0_def)
qed

end
